theory Spec2Isabelle
  imports Main "HOL-Library.Word" "HOL-Library.Multiset"
begin

section \<open>FAA ACS monitor: change detection (scripts/monitor.py)\<close>

text \<open>
  The monitor talks to a web server, reads the clock and writes files. The model makes
  each of these explicit. What the outside world answers is an \<open>env\<close>: a family of
  answers indexed by the number of interactions made so far, so that two requests for
  the same URL may be answered differently. What the program has done so far is a
  \<open>world\<close>: the trace of its interactions and the files it owns. Python strings are
  lists of \<open>char\<close>, one per code point (code points above U+00FF are outside the model);
  writing a file is taken to succeed.
\<close>

subsection \<open>Data\<close>

type_synonym bytes = "8 word list"

record ACSDocument =
  name :: string
  url :: string
  last_modified :: "string option"
  etag :: "string option"
  content_hash :: "string option"
  file_size :: "int option"
  local_path :: "string option"
  last_checked :: "string option"

text \<open>One entry of the \<open>changes\<close> list built by \<open>monitor\<close>.\<close>

record change =
  change_type :: string
  change_document :: ACSDocument
  change_timestamp :: string

record summary =
  summary_timestamp :: string
  total_documents :: nat
  changes_detected :: nat
  summary_changes :: "change list"

text \<open>A JSON file of the metadata directory: not there, there but unreadable, or holding a value.\<close>

datatype 'a json_file = Missing | Malformed | Content 'a

text \<open>
  The answer to \<open>session.head\<close>: the call raises, or gives a status code and the three
  headers the code reads with \<open>headers.get\<close>.
\<close>

datatype head_result =
    HeadRaises
  | HeadResponse int "string option" "string option" "string option"

text \<open>The answer to \<open>session.get\<close>: the call raises, or gives a status code and the body.\<close>

datatype get_result = GetRaises | GetResponse int bytes

datatype event = EvDiscover | EvHead string | EvGet string | EvNow | EvSleep nat

record env =
  discover_resp :: "nat \<Rightarrow> (string \<times> string) list option"
  head_resp :: "nat \<Rightarrow> string \<Rightarrow> head_result"
  get_resp :: "nat \<Rightarrow> string \<Rightarrow> get_result"
  now_isoformat :: "nat \<Rightarrow> string"
  sha256_hexdigest :: "bytes \<Rightarrow> string"

record world =
  trace :: "event list"
  docs_dir :: "string \<rightharpoonup> bytes"
  known_documents_json :: "ACSDocument list json_file"
  changes_json :: "change list json_file"
  last_run_summary_json :: "summary json_file"

definition tick :: "world \<Rightarrow> nat" where
  "tick w = length (trace w)"

definition emit :: "event \<Rightarrow> world \<Rightarrow> world" where
  "emit e w = w\<lparr>trace := trace w @ [e]\<rparr>"

text \<open>\<open>datetime.now().isoformat()\<close>\<close>

definition now :: "env \<Rightarrow> world \<Rightarrow> string \<times> world" where
  "now E w = (now_isoformat E (tick w), emit EvNow w)"

subsection \<open>Python string and integer primitives\<close>

text \<open>\<open>ord(c)\<close>, the code point of a character.\<close>

definition py_ord :: "char \<Rightarrow> nat" where
  "py_ord c = of_char c"

text \<open>\<open>str.isspace\<close> on one character, for code points up to U+00FF.\<close>

definition py_isspace :: "char \<Rightarrow> bool" where
  "py_isspace c \<longleftrightarrow>
     (9 \<le> py_ord c \<and> py_ord c \<le> 13) \<or> (28 \<le> py_ord c \<and> py_ord c \<le> 32) \<or> py_ord c = 133 \<or> py_ord c = 160"

definition is_ascii_digit :: "char \<Rightarrow> bool" where
  "is_ascii_digit c \<longleftrightarrow> 48 \<le> py_ord c \<and> py_ord c \<le> 57"

definition is_ascii_upper :: "char \<Rightarrow> bool" where
  "is_ascii_upper c \<longleftrightarrow> 65 \<le> py_ord c \<and> py_ord c \<le> 90"

definition is_ascii_lower :: "char \<Rightarrow> bool" where
  "is_ascii_lower c \<longleftrightarrow> 97 \<le> py_ord c \<and> py_ord c \<le> 122"

text \<open>
  \<open>str.isalnum\<close> on one character, for code points up to U+00FF: the ASCII letters and
  digits, the Latin-1 letters, and the Latin-1 superscript digits and fractions.
\<close>

definition py_isalnum :: "char \<Rightarrow> bool" where
  "py_isalnum c \<longleftrightarrow>
     is_ascii_digit c \<or> is_ascii_upper c \<or> is_ascii_lower c \<or>
     py_ord c \<in> {170, 178, 179, 181, 185, 186, 188, 189, 190} \<or>
     (192 \<le> py_ord c \<and> py_ord c \<le> 214) \<or> (216 \<le> py_ord c \<and> py_ord c \<le> 246) \<or> 248 \<le> py_ord c"

definition lstrip :: "string \<Rightarrow> string" where
  "lstrip s = dropWhile py_isspace s"

definition rstrip :: "string \<Rightarrow> string" where
  "rstrip s = rev (dropWhile py_isspace (rev s))"

definition strip :: "string \<Rightarrow> string" where
  "strip s = rstrip (lstrip s)"

text \<open>
  The digits of \<open>int(s)\<close>: decimal digits, with single underscores allowed between two
  digits. The flag says whether the previous character was a digit.
\<close>

fun py_digits :: "bool \<Rightarrow> int \<Rightarrow> string \<Rightarrow> int option" where
  "py_digits prev acc [] = (if prev then Some acc else None)"
| "py_digits prev acc (c # cs) =
     (if is_ascii_digit c then py_digits True (10 * acc + (int (py_ord c) - 48)) cs
      else if c = CHR ''_'' \<and> prev then py_digits False acc cs
      else None)"

text \<open>
  The whitespace that \<open>int(s)\<close> skips at both ends of \<open>s\<close>. It is narrower than
  \<open>str.isspace\<close>: the separators U+001C to U+001F are not skipped, and \<open>int\<close> raises on them.
\<close>

definition int_isspace :: "char \<Rightarrow> bool" where
  "int_isspace c \<longleftrightarrow>
     (9 \<le> py_ord c \<and> py_ord c \<le> 13) \<or> py_ord c = 32 \<or> py_ord c = 133 \<or> py_ord c = 160"

definition int_strip :: "string \<Rightarrow> string" where
  "int_strip s = rev (dropWhile int_isspace (rev (dropWhile int_isspace s)))"

text \<open>
  \<open>int(s)\<close> for a string \<open>s\<close>; \<open>None\<close> stands for the \<open>ValueError\<close>. Surrounding
  whitespace and one sign are allowed; CPython 3.11 and later refuse more than 4300 digits.
\<close>

definition py_int :: "string \<Rightarrow> int option" where
  "py_int s =
     (case int_strip s of
        [] \<Rightarrow> None
      | c # cs \<Rightarrow>
          if length (filter is_ascii_digit (c # cs)) > 4300 then None
          else if c = CHR ''-'' then map_option uminus (py_digits False 0 cs)
          else if c = CHR ''+'' then py_digits False 0 cs
          else py_digits False 0 (c # cs))"

subsection \<open>download_and_verify\<close>

text \<open>\<open>response.raise_for_status()\<close> raises for a status from 400 to 599.\<close>

definition raise_for_status :: "int \<Rightarrow> bool" where
  "raise_for_status status \<longleftrightarrow> 400 \<le> status \<and> status < 600"

definition safe_name :: "string \<Rightarrow> string" where
  "safe_name n =
     rstrip (filter (\<lambda>c. py_isalnum c \<or> c \<in> {CHR '' '', CHR ''-'', CHR ''_''}) n)"

text \<open>\<open>self.docs_dir / filename\<close>, as the string \<open>str(local_path)\<close>.\<close>

definition docs_path :: "string \<Rightarrow> string" where
  "docs_path filename = ''data/acs-documents/'' @ filename"

text \<open>
  The request, the status check, the hash comparison and the write. The write of the
  downloaded file is taken to succeed; in the source a failing write is caught by the same
  \<open>except\<close> branch as a failing request.
\<close>

definition download_and_verify :: "env \<Rightarrow> world \<Rightarrow> ACSDocument \<Rightarrow> (bool \<times> ACSDocument) \<times> world" where
  "download_and_verify E w document =
     (let w1 = emit (EvGet (url document)) w in
      case get_resp E (tick w) (url document) of
        GetRaises \<Rightarrow> ((False, document), w1)
      | GetResponse status content \<Rightarrow>
          if raise_for_status status then ((False, document), w1)
          else
            let h = sha256_hexdigest E content;
                filename = safe_name (name document) @ ''.pdf'';
                path = docs_path filename
            in if content_hash document = Some h then ((False, document), w1)
               else ((True, document\<lparr>content_hash := Some h, local_path := Some path\<rparr>),
                     w1\<lparr>docs_dir := (docs_dir w1)(path \<mapsto> content)\<rparr>))"

text \<open>The body fetch fails: \<open>session.get\<close> raises, or \<open>raise_for_status\<close> does.\<close>

definition fetch_fails :: "get_result \<Rightarrow> bool" where
  "fetch_fails r \<longleftrightarrow>
     (case r of GetRaises \<Rightarrow> True | GetResponse status content \<Rightarrow> raise_for_status status)"

subsection \<open>check_document_changes\<close>

text \<open>
  \<open>int(content_length) if content_length else None\<close>: an absent or empty header gives no
  size, any other header is parsed, and a header that does not parse raises (\<open>Inl\<close>).
\<close>

definition live_file_size :: "string option \<Rightarrow> unit + int option" where
  "live_file_size content_length =
     (case content_length of
        None \<Rightarrow> Inr None
      | Some s \<Rightarrow> if s = [] then Inr None
                  else (case py_int s of None \<Rightarrow> Inl () | Some n \<Rightarrow> Inr (Some n)))"

text \<open>The flag \<open>changed\<close> after the three header comparisons.\<close>

definition headers_changed :: "ACSDocument \<Rightarrow> ACSDocument \<Rightarrow> bool" where
  "headers_changed document updated_doc \<longleftrightarrow>
     last_modified document \<noteq> last_modified updated_doc \<or>
     etag document \<noteq> etag updated_doc \<or>
     file_size document \<noteq> file_size updated_doc"

definition check_document_changes :: "env \<Rightarrow> world \<Rightarrow> ACSDocument \<Rightarrow> (bool \<times> ACSDocument) \<times> world" where
  "check_document_changes E w document =
     (let w1 = emit (EvHead (url document)) w in
      case head_resp E (tick w) (url document) of
        HeadRaises \<Rightarrow> ((False, document), w1)
      | HeadResponse status_code lm et content_length \<Rightarrow>
          if status_code \<noteq> 200 then ((False, document), w1)
          else
            (case live_file_size content_length of
               Inl _ \<Rightarrow> ((False, document), w1)
             | Inr live_size \<Rightarrow>
                 let (ts, w2) = now E w1;
                     updated_doc = \<lparr>name = name document, url = url document,
                                    last_modified = lm, etag = et, content_hash = None,
                                    file_size = live_size, local_path = None,
                                    last_checked = Some ts\<rparr>
                 in if headers_changed document updated_doc
                    then download_and_verify E w2 updated_doc
                    else ((False, updated_doc), w2)))"

subsection \<open>The registry file\<close>

text \<open>A missing file and a file that fails to load both give the empty list.\<close>

definition load_known_documents :: "world \<Rightarrow> ACSDocument list" where
  "load_known_documents w =
     (case known_documents_json w of Content documents \<Rightarrow> documents | _ \<Rightarrow> [])"

definition save_known_documents :: "ACSDocument list \<Rightarrow> world \<Rightarrow> world" where
  "save_known_documents documents w = w\<lparr>known_documents_json := Content documents\<rparr>"

subsection \<open>discover_acs_documents\<close>

text \<open>
  The scrape of the FAA page is an answer of the environment: the (name, URL) pairs of
  the links that pass the keyword filter, or \<open>None\<close> when the request or the parsing
  raises. Each candidate becomes a record holding only name, URL and the time of discovery.
\<close>

fun discovered :: "env \<Rightarrow> (string \<times> string) list \<Rightarrow> world \<Rightarrow> ACSDocument list \<times> world" where
  "discovered E [] w = ([], w)"
| "discovered E ((doc_name, href) # links) w =
     (let (ts, w1) = now E w;
          (documents, w2) = discovered E links w1
      in (\<lparr>name = doc_name, url = href, last_modified = None, etag = None,
           content_hash = None, file_size = None, local_path = None,
           last_checked = Some ts\<rparr> # documents, w2))"

definition discover_acs_documents :: "env \<Rightarrow> world \<Rightarrow> ACSDocument list \<times> world" where
  "discover_acs_documents E w =
     (let w1 = emit EvDiscover w in
      case discover_resp E (tick w) of
        None \<Rightarrow> ([], w1)
      | Some links \<Rightarrow> discovered E links w1)"

subsection \<open>monitor\<close>

text \<open>\<open>{doc.url: doc for doc in known_docs}\<close>: a later record of the same URL replaces an earlier one.\<close>

definition known_urls :: "ACSDocument list \<Rightarrow> (string \<rightharpoonup> ACSDocument)" where
  "known_urls known_docs = map_of (rev (map (\<lambda>doc. (url doc, doc)) known_docs))"

text \<open>One round of the loop over \<open>current_docs\<close>, on the lists \<open>changes\<close> and \<open>all_docs\<close>.\<close>

definition monitor_step ::
  "env \<Rightarrow> (string \<rightharpoonup> ACSDocument) \<Rightarrow> ACSDocument
     \<Rightarrow> (change list \<times> ACSDocument list) \<times> world \<Rightarrow> (change list \<times> ACSDocument list) \<times> world" where
  "monitor_step E known doc acc =
     (let ((changes, all_docs), w) = acc;
          w1 = emit (EvSleep 2) w
      in case known (url doc) of
           Some known_doc \<Rightarrow>
             let ((changed, updated_doc), w2) = check_document_changes E w1 known_doc
             in if changed
                then let (ts, w3) = now E w2
                     in ((changes @ [\<lparr>change_type = ''updated'', change_document = updated_doc,
                                      change_timestamp = ts\<rparr>],
                          all_docs @ [updated_doc]), w3)
                else ((changes, all_docs @ [updated_doc]), w2)
         | None \<Rightarrow>
             let ((unused, downloaded_doc), w2) = download_and_verify E w1 doc;
                 (ts, w3) = now E w2
             in ((changes @ [\<lparr>change_type = ''new'', change_document = downloaded_doc,
                              change_timestamp = ts\<rparr>],
                  all_docs @ [downloaded_doc]), w3))"

text \<open>
  The first half of \<open>monitor\<close>: load the registry, discover, and run the loop. The result
  is the pair (\<open>changes\<close>, \<open>all_docs\<close>) of this run.
\<close>

definition monitor_scan :: "env \<Rightarrow> world \<Rightarrow> (change list \<times> ACSDocument list) \<times> world" where
  "monitor_scan E w =
     (let known_docs = load_known_documents w;
          (current_docs, w1) = discover_acs_documents E w
      in fold (monitor_step E (known_urls known_docs)) current_docs (([], []), w1))"

text \<open>The second half: save the registry, write the change log if there is a change, write the summary.\<close>

definition monitor :: "env \<Rightarrow> world \<Rightarrow> world" where
  "monitor E w =
     (let ((changes, all_docs), w2) = monitor_scan E w;
          w3 = save_known_documents all_docs w2;
          w4 = (if changes \<noteq> [] then w3\<lparr>changes_json := Content changes\<rparr> else w3);
          (ts, w5) = now E w4
      in w5\<lparr>last_run_summary_json :=
               Content \<lparr>summary_timestamp = ts, total_documents = length all_docs,
                        changes_detected = length changes, summary_changes = changes\<rparr>\<rparr>)"

section \<open>FAA ACS PDF processor: sections and standards (scripts/pdf_processor.py)\<close>

subsection \<open>Regular expressions as the patterns use them\<close>

text \<open>
  The patterns of the processor are sequences of single-character items, each with a
  greedy quantifier, and capturing groups that are neither nested nor repeated. A
  backtracking matcher for this fragment tries, for each item, the longest run first,
  as Python's \<open>re\<close> does.
\<close>

datatype cset = Lit char | OneOf string | Range char char | NotNewline | Space | Digit

datatype quant = Once | Opt | Star | Plus

datatype elem = Atom cset quant | GroupOpen | GroupClose

type_synonym regex = "elem list"

definition lit :: "string \<Rightarrow> regex" where
  "lit s = map (\<lambda>c. Atom (Lit c) Once) s"

fun in_cset :: "cset \<Rightarrow> char \<Rightarrow> bool" where
  "in_cset (Lit a) c = (c = a)"
| "in_cset (OneOf cs) c = (c \<in> set cs)"
| "in_cset (Range a b) c = (py_ord a \<le> py_ord c \<and> py_ord c \<le> py_ord b)"
| "in_cset NotNewline c = (c \<noteq> CHR 0x0A)"
| "in_cset Space c = py_isspace c"
| "in_cset Digit c = is_ascii_digit c"

definition ascii_lower :: "char \<Rightarrow> char" where
  "ascii_lower c = (if is_ascii_upper c then char_of (py_ord c + 32) else c)"

definition ascii_upper :: "char \<Rightarrow> char" where
  "ascii_upper c = (if is_ascii_lower c then char_of (py_ord c - 32) else c)"

text \<open>Under \<open>re.IGNORECASE\<close> a character matches when its lower or its upper case does.\<close>

definition cset_match :: "bool \<Rightarrow> cset \<Rightarrow> char \<Rightarrow> bool" where
  "cset_match ignorecase cs c \<longleftrightarrow>
     (if ignorecase then in_cset cs (ascii_lower c) \<or> in_cset cs (ascii_upper c)
      else in_cset cs c)"

fun quant_min :: "quant \<Rightarrow> nat" where
  "quant_min Once = 1"
| "quant_min Opt = 0"
| "quant_min Star = 0"
| "quant_min Plus = 1"

fun quant_cap :: "quant \<Rightarrow> nat \<Rightarrow> nat" where
  "quant_cap Once n = min 1 n"
| "quant_cap Opt n = min 1 n"
| "quant_cap Star n = n"
| "quant_cap Plus n = n"

text \<open>The first success among the counts \<open>hi\<close>, \<open>hi - 1\<close>, ..., \<open>lo\<close>.\<close>

fun try_counts :: "(nat \<Rightarrow> 'a option) \<Rightarrow> nat \<Rightarrow> nat \<Rightarrow> 'a option" where
  "try_counts f lo 0 = (if lo = 0 then f 0 else None)"
| "try_counts f lo (Suc k) =
     (if Suc k < lo then None
      else case f (Suc k) of Some r \<Rightarrow> Some r | None \<Rightarrow> try_counts f lo k)"

type_synonym capture = "nat \<times> nat"

text \<open>
  Match the items against the text \<open>s\<close> that starts at offset \<open>pos\<close>. The result is the
  offset where the match ends and the spans of the groups closed on the way.
\<close>

fun match_here ::
  "bool \<Rightarrow> regex \<Rightarrow> string \<Rightarrow> nat \<Rightarrow> nat option \<Rightarrow> capture list \<Rightarrow> (nat \<times> capture list) option" where
  "match_here ic [] s pos opened caps = Some (pos, caps)"
| "match_here ic (GroupOpen # es) s pos opened caps = match_here ic es s pos (Some pos) caps"
| "match_here ic (GroupClose # es) s pos opened caps =
     match_here ic es s pos None
       (caps @ [(case opened of Some b \<Rightarrow> b | None \<Rightarrow> pos, pos)])"
| "match_here ic (Atom cs q # es) s pos opened caps =
     try_counts (\<lambda>k. match_here ic es (drop k s) (pos + k) opened caps)
       (quant_min q) (quant_cap q (length (takeWhile (cset_match ic cs) s)))"

record re_match =
  m_start :: nat
  m_end :: nat
  m_groups :: "capture list"

text \<open>
  \<open>re.finditer\<close>: the matches from left to right, each search starting where the previous
  match ended (one character further after an empty match or no match at this offset).
\<close>

function finditer_from :: "bool \<Rightarrow> regex \<Rightarrow> nat \<Rightarrow> string \<Rightarrow> re_match list" where
  "finditer_from ic p pos s =
     (case match_here ic p s pos None [] of
        Some (e, caps) \<Rightarrow>
          \<lparr>m_start = pos, m_end = e, m_groups = caps\<rparr> #
            (if s = [] then []
             else finditer_from ic p (pos + max 1 (e - pos)) (drop (max 1 (e - pos)) s))
      | None \<Rightarrow> (case s of [] \<Rightarrow> [] | c # cs \<Rightarrow> finditer_from ic p (Suc pos) cs))"
  by pat_completeness auto
termination
  by (relation "measure (\<lambda>(ic, p, pos, s). length s)") auto

definition finditer :: "bool \<Rightarrow> regex \<Rightarrow> string \<Rightarrow> re_match list" where
  "finditer ic p text = finditer_from ic p 0 text"

definition slice :: "string \<Rightarrow> capture \<Rightarrow> string" where
  "slice text c = take (snd c - fst c) (drop (fst c) text)"

text \<open>\<open>match.group(n)\<close>; group 0 is the whole match.\<close>

definition group :: "string \<Rightarrow> re_match \<Rightarrow> nat \<Rightarrow> string" where
  "group text m n =
     (if n = 0 then slice text (m_start m, m_end m)
      else case drop (n - 1) (m_groups m) of c # rest \<Rightarrow> slice text c | [] \<Rightarrow> [])"

subsection \<open>parse_acs_sections\<close>

record acs_section =
  sec_type :: string
  sec_content :: string
  sec_position :: nat
  sec_length :: nat

text \<open>\<open>(LABEL:?\s*)([^\n]+)\<close>, the shape of the last four patterns.\<close>

definition labelled :: "string \<Rightarrow> regex" where
  "labelled label =
     [GroupOpen] @ lit label @
     [Atom (Lit CHR '':'') Opt, Atom Space Star, GroupClose,
      GroupOpen, Atom NotNewline Plus, GroupClose]"

definition section_patterns :: "regex list" where
  "section_patterns =
     [ [GroupOpen] @ lit ''AREA OF OPERATION'' @
       [Atom Space Plus, Atom (OneOf ''IVXLC'') Plus, GroupClose,
        Atom Space Star, Atom (OneOf '':-'') Once, Atom Space Star,
        GroupOpen, Atom NotNewline Plus, GroupClose],
       [GroupOpen] @ lit ''TASK'' @
       [Atom Space Plus, Atom (Range CHR ''A'' CHR ''Z'') Plus, GroupClose,
        Atom (Lit CHR ''.'') Once, Atom Space Star,
        GroupOpen, Atom NotNewline Plus, GroupClose],
       [GroupOpen] @ lit ''REFERENCE'' @
       [Atom (Lit CHR ''S'') Opt, Atom (Lit CHR '':'') Opt, Atom Space Star, GroupClose,
        GroupOpen, Atom NotNewline Plus, GroupClose],
       labelled ''OBJECTIVE'',
       labelled ''KNOWLEDGE'',
       labelled ''RISK MANAGEMENT'',
       labelled ''SKILLS'' ]"

definition section_of :: "string \<Rightarrow> re_match \<Rightarrow> acs_section" where
  "section_of text m =
     \<lparr>sec_type = strip (group text m 1), sec_content = strip (group text m 2),
      sec_position = m_start m, sec_length = length (group text m 0)\<rparr>"

text \<open>The sections of all patterns, in pattern order, then sorted (stably) by position.\<close>

definition parse_acs_sections :: "string \<Rightarrow> acs_section list" where
  "parse_acs_sections text =
     sort_key sec_position
       (concat (map (\<lambda>pattern. map (section_of text) (finditer True pattern text))
                    section_patterns))"

subsection \<open>extract_acs_standards\<close>

record area =
  area_number :: string
  area_title :: string

record task =
  task_code :: string
  task_title :: string

record standards =
  areas_of_operation :: "area list"
  tasks :: "task list"
  references :: "string list"
  objectives :: "string list"
  knowledge_elements :: "string list"
  risk_management :: "string list"
  skill_elements :: "string list"

definition aoo_pattern :: regex where
  "aoo_pattern =
     lit ''AREA OF OPERATION'' @
     [Atom Space Plus, GroupOpen, Atom (OneOf ''IVXLC'') Plus, GroupClose,
      Atom Space Star, Atom (OneOf '':-'') Once, Atom Space Star,
      GroupOpen, Atom NotNewline Plus, GroupClose]"

definition task_pattern :: regex where
  "task_pattern =
     lit ''TASK'' @
     [Atom Space Plus, GroupOpen, Atom (Range CHR ''A'' CHR ''Z'') Plus, GroupClose,
      Atom (Lit CHR ''.'') Once, Atom Space Star,
      GroupOpen, Atom NotNewline Plus, GroupClose]"

definition ref_patterns :: "regex list" where
  "ref_patterns =
     [ lit ''14 CFR part '' @ [GroupOpen, Atom Digit Plus, GroupClose],
       lit ''AC '' @
       [GroupOpen, Atom Digit Plus, Atom (Lit CHR ''-'') Once, Atom Digit Plus,
        Atom (Range CHR ''A'' CHR ''Z'') Star, GroupClose],
       lit ''AIM '' @
       [GroupOpen, Atom Digit Plus, Atom (Lit CHR ''-'') Once, Atom Digit Plus,
        Atom (Lit CHR ''-'') Once, Atom Digit Plus, GroupClose],
       lit ''POH/AFM'' ]"

definition extract_acs_standards :: "string \<Rightarrow> standards" where
  "extract_acs_standards text =
     \<lparr>areas_of_operation =
        map (\<lambda>m. \<lparr>area_number = group text m 1, area_title = strip (group text m 2)\<rparr>)
            (finditer True aoo_pattern text),
      tasks =
        map (\<lambda>m. \<lparr>task_code = group text m 1, task_title = strip (group text m 2)\<rparr>)
            (finditer True task_pattern text),
      references =
        concat (map (\<lambda>pattern. map (\<lambda>m. group text m 0) (finditer True pattern text))
                    ref_patterns),
      objectives = [], knowledge_elements = [], risk_management = [], skill_elements = []\<rparr>"

subsection \<open>process_document and process_all_documents\<close>

datatype jvalue = JStr string | JInt int

type_synonym meta = "(string \<times> jvalue) list"

record structured =
  structured_standards :: standards
  structured_metadata :: meta
  word_count :: nat
  character_count :: nat

record ProcessedDocument =
  doc_name :: string
  source_path :: string
  text_content :: string
  structured_content :: "structured option"
  sections :: "acs_section list option"
  metadata :: "meta option"
  processing_method :: "string option"
  processed_at :: "string option"

record processing_summary =
  summary_processed_at :: string
  summary_total_documents :: nat
  successfully_processed :: nat
  summary_processing_method :: string
  documents :: "string list"

text \<open>
  The processor and what surrounds it: the method chosen at start-up, the three text
  extraction backends (each catches its own exceptions and answers the empty text and
  empty metadata then), the clock, and whether saving a processed document raises.
\<close>

record processor =
  self_processing_method :: string
  extract_text_pymupdf4llm :: "string \<Rightarrow> string \<times> meta"
  extract_text_pdftext :: "string \<Rightarrow> string \<times> meta"
  extract_text_pymupdf :: "string \<Rightarrow> string \<times> meta"
  clock :: "nat \<Rightarrow> string"
  save_raises :: "ProcessedDocument \<Rightarrow> bool"

text \<open>
  What the extraction run has done: the paths whose processing was started (the
  \<open>Processing ...\<close> log lines), the number of clock readings, the documents saved, and
  the summary file.
\<close>

record pworld =
  started :: "string list"
  clock_reads :: nat
  saved :: "ProcessedDocument list"
  processing_summary_json :: "processing_summary json_file"

definition extract_text :: "processor \<Rightarrow> string \<Rightarrow> string \<times> meta" where
  "extract_text P pdf_path =
     (if self_processing_method P = ''pymupdf4llm'' then extract_text_pymupdf4llm P pdf_path
      else if self_processing_method P = ''pdftext'' then extract_text_pdftext P pdf_path
      else if self_processing_method P = ''pymupdf'' then extract_text_pymupdf P pdf_path
      else ([], []))"

text \<open>\<open>Path.name\<close> and \<open>Path.stem\<close> of a path given as a string.\<close>

definition path_name :: "string \<Rightarrow> string" where
  "path_name p = rev (takeWhile (\<lambda>c. c \<noteq> CHR ''/'') (rev p))"

definition path_stem :: "string \<Rightarrow> string" where
  "path_stem p =
     (let n = path_name p;
          suffix = takeWhile (\<lambda>c. c \<noteq> CHR ''.'') (rev n);
          i = length n - length suffix - 1
      in if CHR ''.'' \<in> set n \<and> 0 < i \<and> i < length n - 1 then take i n else n)"

text \<open>\<open>text.split()\<close>: the maximal runs of characters that are not whitespace.\<close>

fun split_ws :: "string \<Rightarrow> string \<Rightarrow> string list" where
  "split_ws cur [] = (if cur = [] then [] else [cur])"
| "split_ws cur (c # cs) =
     (if py_isspace c then (if cur = [] then split_ws [] cs else cur # split_ws [] cs)
      else split_ws (cur @ [c]) cs)"

definition py_split :: "string \<Rightarrow> string list" where
  "py_split s = split_ws [] s"

definition read_clock :: "processor \<Rightarrow> pworld \<Rightarrow> string \<times> pworld" where
  "read_clock P w = (clock P (clock_reads w), w\<lparr>clock_reads := Suc (clock_reads w)\<rparr>)"

definition process_document :: "processor \<Rightarrow> pworld \<Rightarrow> string \<Rightarrow> ProcessedDocument \<times> pworld" where
  "process_document P w pdf_path =
     (let w1 = w\<lparr>started := started w @ [pdf_path]\<rparr>;
          (text, md) = extract_text P pdf_path
      in if text = []
         then let (ts, w2) = read_clock P w1
              in (\<lparr>doc_name = path_stem pdf_path, source_path = pdf_path, text_content = [],
                   structured_content = None, sections = None, metadata = None,
                   processing_method = Some (self_processing_method P), processed_at = Some ts\<rparr>, w2)
         else let secs = parse_acs_sections text;
                  acs_standards = extract_acs_standards text;
                  sc = \<lparr>structured_standards = acs_standards, structured_metadata = md,
                        word_count = length (py_split text),
                        character_count = length text\<rparr>;
                  (ts, w2) = read_clock P w1
              in (\<lparr>doc_name = path_stem pdf_path, source_path = pdf_path, text_content = text,
                   structured_content = Some sc, sections = Some secs, metadata = Some md,
                   processing_method = Some (self_processing_method P), processed_at = Some ts\<rparr>, w2))"

text \<open>
  \<open>save_processed_document\<close> writes the text, the markdown rendering and the JSON of one
  document. The model keeps the list of documents saved, not the rendering.
\<close>

definition save_processed_document :: "ProcessedDocument \<Rightarrow> pworld \<Rightarrow> pworld" where
  "save_processed_document doc w = w\<lparr>saved := saved w @ [doc]\<rparr>"

text \<open>
  One round of the loop over \<open>pdf_files\<close>: an exception while processing or saving is
  caught and logged, and the document is then missing from \<open>processed_docs\<close>.
\<close>

definition process_step ::
  "processor \<Rightarrow> string \<Rightarrow> ProcessedDocument list \<times> pworld \<Rightarrow> ProcessedDocument list \<times> pworld" where
  "process_step P pdf_file acc =
     (let (processed_docs, w) = acc;
          (processed_doc, w1) = process_document P w pdf_file
      in if save_raises P processed_doc then (processed_docs, w1)
         else (processed_docs @ [processed_doc], save_processed_document processed_doc w1))"

text \<open>
  \<open>process_all_documents\<close> on the listing of the documents directory: \<open>None\<close> when the
  directory does not exist. The result is \<open>processed_docs\<close> and the world after the run.
\<close>

definition process_all_documents ::
  "processor \<Rightarrow> pworld \<Rightarrow> string list option \<Rightarrow> ProcessedDocument list \<times> pworld" where
  "process_all_documents P w listing =
     (case listing of
        None \<Rightarrow> ([], w)
      | Some pdf_files \<Rightarrow>
          if pdf_files = [] then ([], w)
          else
            let (processed_docs, w1) = fold (process_step P) pdf_files ([], w);
                (ts, w2) = read_clock P w1
            in (processed_docs,
                w2\<lparr>processing_summary_json :=
                     Content \<lparr>summary_processed_at = ts,
                              summary_total_documents = length pdf_files,
                              successfully_processed = length processed_docs,
                              summary_processing_method = self_processing_method P,
                              documents = map doc_name processed_docs\<rparr>\<rparr>))"

section \<open>Example inputs\<close>

text \<open>
  The theorems below hold for every digest function. The examples need one to compute
  with; this stand-in writes the payload out as characters.
\<close>

definition example_digest :: "bytes \<Rightarrow> string" where
  "example_digest content = map (\<lambda>b. char_of (unat b)) content"

definition example_body :: bytes where
  "example_body = [37, 80, 68, 70]"

text \<open>An environment that gives the same answers at every moment.\<close>

definition steady_env :: "(string \<times> string) list option \<Rightarrow> head_result \<Rightarrow> get_result \<Rightarrow> env" where
  "steady_env links h g =
     \<lparr>discover_resp = (\<lambda>t. links), head_resp = (\<lambda>t u. h), get_resp = (\<lambda>t u. g),
      now_isoformat = (\<lambda>t. ''2025-06-01T12:00:00''), sha256_hexdigest = example_digest\<rparr>"

text \<open>The tracked document of scenarios A and B, fetched before with the example body.\<close>

definition private_pilot :: ACSDocument where
  "private_pilot =
     \<lparr>name = ''Private Pilot ACS'', url = ''https://www.faa.gov/acs/private.pdf'',
      last_modified = Some ''T1'', etag = Some ''E1'',
      content_hash = Some (example_digest example_body), file_size = Some 100,
      local_path = Some ''data/acs-documents/Private Pilot ACS.pdf'',
      last_checked = Some ''2025-05-01T12:00:00''\<rparr>"

definition earlier_change :: change where
  "earlier_change =
     \<lparr>change_type = ''new'', change_document = private_pilot,
      change_timestamp = ''2025-05-01T12:00:02''\<rparr>"

text \<open>The files after an earlier run that discovered and fetched the tracked document.\<close>

definition earlier_world :: world where
  "earlier_world =
     \<lparr>trace = [], docs_dir = Map.empty, known_documents_json = Content [private_pilot],
      changes_json = Content [earlier_change], last_run_summary_json = Missing\<rparr>"

definition same_headers :: head_result where
  "same_headers = HeadResponse 200 (Some ''T1'') (Some ''E1'') (Some ''100'')"

definition rotated_etag :: head_result where
  "rotated_etag = HeadResponse 200 (Some ''T1'') (Some ''E2'') (Some ''100'')"

text \<open>A link to a document that no registry knows yet.\<close>

definition commercial_link :: "string \<times> string" where
  "commercial_link = (''Commercial Pilot ACS'', ''https://www.faa.gov/acs/commercial.pdf'')"

definition scenario_d :: string where
  "scenario_d = ''AREA OF OPERATION II: Airspace'' @ [CHR 0x0A] @ ''TASK A. Preflight Prep''"

definition example_processor :: processor where
  "example_processor =
     \<lparr>self_processing_method = ''pymupdf'',
      extract_text_pymupdf4llm = (\<lambda>p. ([], [])),
      extract_text_pdftext = (\<lambda>p. ([], [])),
      extract_text_pymupdf =
        (\<lambda>p. if p = ''data/acs-documents/scan.pdf'' then ([], [])
              else (''TASK A. Slow Flight'', [(''page_count'', JInt 1)])),
      clock = (\<lambda>t. ''2025-06-01T13:00:00''),
      save_raises = (\<lambda>d. False)\<rparr>"

definition fresh_pworld :: pworld where
  "fresh_pworld = \<lparr>started = [], clock_reads = 0, saved = [], processing_summary_json = Missing\<rparr>"

section \<open>Properties of the change detector\<close>

subsection \<open>Requests, traces and URLs\<close>

lemma tick_emit: "tick (emit e w) = Suc (tick w)"
  by (simp add: tick_def emit_def)

lemma download_and_verify_trace:
  "trace (snd (download_and_verify E w d)) = trace w @ [EvGet (url d)]"
  by (simp add: download_and_verify_def Let_def emit_def split: get_result.splits)

lemma download_and_verify_url:
  "url (snd (fst (download_and_verify E w d))) = url d"
  by (simp add: download_and_verify_def Let_def split: get_result.splits)

lemma check_document_changes_url:
  "url (snd (fst (check_document_changes E w d))) = url d"
  by (simp add: check_document_changes_def Let_def now_def download_and_verify_url
      split: head_result.splits sum.splits)

subsection \<open>Content verification\<close>

text \<open>
  C5. When the hash of the fetched payload equals the hash stored in the record,
  \<open>download_and_verify\<close> answers \<open>changed = False\<close>, returns the record as it received it,
  and writes no file: the only effect is the request itself. The payload is arbitrary,
  the empty one included.
\<close>

theorem verify_same_hash_unchanged:
  assumes "get_resp E (tick w) (url document) = GetResponse status content"
    and "\<not> raise_for_status status"
    and "content_hash document = Some (sha256_hexdigest E content)"
  shows "download_and_verify E w document = ((False, document), emit (EvGet (url document)) w)
       \<and> docs_dir (snd (download_and_verify E w document)) = docs_dir w"
  using assms by (simp add: download_and_verify_def Let_def emit_def)

theorem verify_same_hash_unchanged_witness:
  "get_resp (steady_env None HeadRaises (GetResponse 200 example_body)) (tick earlier_world)
       (url private_pilot) = GetResponse 200 example_body
   \<and> \<not> raise_for_status 200
   \<and> content_hash private_pilot
       = Some (sha256_hexdigest (steady_env None HeadRaises (GetResponse 200 example_body)) example_body)
   \<and> download_and_verify (steady_env None HeadRaises (GetResponse 200 example_body))
         earlier_world private_pilot
       = ((False, private_pilot), emit (EvGet (url private_pilot)) earlier_world)
   \<and> docs_dir (snd (download_and_verify (steady_env None HeadRaises (GetResponse 200 example_body))
            earlier_world private_pilot)) = docs_dir earlier_world"
proof -
  let ?E = "steady_env None HeadRaises (GetResponse 200 example_body)"
  have h1: "get_resp ?E (tick earlier_world) (url private_pilot) = GetResponse 200 example_body"
    by (simp add: steady_env_def)
  have h2: "\<not> raise_for_status 200"
    by (simp add: raise_for_status_def)
  have h3: "content_hash private_pilot = Some (sha256_hexdigest ?E example_body)"
    by (simp add: steady_env_def private_pilot_def)
  from verify_same_hash_unchanged [OF h1 h2 h3] h1 h2 h3 show ?thesis
    by blast
qed

subsection \<open>The header check\<close>

lemma live_size_100: "live_file_size (Some ''100'') = Inr (Some 100)"
  by code_simp

text \<open>A header that \<open>int\<close> refuses takes the \<open>except\<close> branch: here a leading U+001F.\<close>

lemma live_size_separator_raises: "live_file_size (Some (CHR 0x1F # ''100'')) = Inl ()"
  by code_simp

text \<open>
  C6. The decision of the header check is a function of the known record and the live
  headers. For a probe answered with status 200 whose \<open>Content-Length\<close> is absent, empty
  or a number, the check stops without a download (its trace ends with the probe and the
  clock reading) exactly when last-modified, entity-tag and size all equal the stored
  values, absent values included; when one of them differs it goes on to the body fetch.
\<close>

theorem evaluate_nochange_iff:
  assumes "head_resp E (tick w) (url document) = HeadResponse 200 lm et content_length"
    and "live_file_size content_length = Inr live_size"
  shows "(trace (snd (check_document_changes E w document))
            = trace w @ [EvHead (url document), EvNow]
          \<longleftrightarrow> last_modified document = lm \<and> etag document = et \<and> file_size document = live_size)
       \<and> (last_modified document \<noteq> lm \<or> etag document \<noteq> et \<or> file_size document \<noteq> live_size
          \<longrightarrow> trace (snd (check_document_changes E w document))
            = trace w @ [EvHead (url document), EvNow, EvGet (url document)])"
  using assms
  by (auto simp add: check_document_changes_def Let_def now_def headers_changed_def emit_def
      download_and_verify_trace)

theorem evaluate_nochange_iff_witness:
  "head_resp (steady_env None rotated_etag GetRaises) (tick earlier_world) (url private_pilot)
     = HeadResponse 200 (Some ''T1'') (Some ''E2'') (Some ''100'')
   \<and> live_file_size (Some ''100'') = Inr (Some 100)
   \<and> etag private_pilot \<noteq> Some ''E2''
   \<and> trace (snd (check_document_changes (steady_env None rotated_etag GetRaises)
                   earlier_world private_pilot))
     = trace earlier_world @ [EvHead (url private_pilot), EvNow, EvGet (url private_pilot)]"
proof -
  let ?E = "steady_env None rotated_etag GetRaises"
  have h1: "head_resp ?E (tick earlier_world) (url private_pilot)
              = HeadResponse 200 (Some ''T1'') (Some ''E2'') (Some ''100'')"
    by (simp add: steady_env_def rotated_etag_def)
  have h3: "etag private_pilot \<noteq> Some ''E2''"
    by (simp add: private_pilot_def)
  from evaluate_nochange_iff [OF h1 live_size_100] h1 h3 live_size_100
  show ?thesis by blast
qed

text \<open>
  C1. Scenario B on the code: the entity-tag differs, the body is fetched and its hash
  equals the hash stored in the known record. The record handed to \<open>download_and_verify\<close>
  is the fresh one, whose hash is absent, so the comparison of hashes fails and the check
  answers \<open>changed = True\<close> with hash and path set anew.
\<close>

theorem etag_rotation_same_hash_reports_changed:
  assumes "head_resp E (tick w) (url document) = HeadResponse 200 lm et content_length"
    and "live_file_size content_length = Inr live_size"
    and "etag document \<noteq> et"
    and "get_resp E (tick w + 2) (url document) = GetResponse status content"
    and "\<not> raise_for_status status"
    and "content_hash document = Some (sha256_hexdigest E content)"
  shows "fst (check_document_changes E w document)
       = (True, \<lparr>name = name document, url = url document, last_modified = lm, etag = et,
                 content_hash = Some (sha256_hexdigest E content), file_size = live_size,
                 local_path = Some (docs_path (safe_name (name document) @ ''.pdf'')),
                 last_checked = Some (now_isoformat E (Suc (tick w)))\<rparr>)"
  using assms
  by (simp add: check_document_changes_def Let_def now_def headers_changed_def tick_emit
      download_and_verify_def)

theorem etag_rotation_same_hash_reports_changed_witness:
  "head_resp (steady_env None rotated_etag (GetResponse 200 example_body)) (tick earlier_world)
       (url private_pilot) = HeadResponse 200 (Some ''T1'') (Some ''E2'') (Some ''100'')
   \<and> live_file_size (Some ''100'') = Inr (Some 100)
   \<and> etag private_pilot \<noteq> Some ''E2''
   \<and> get_resp (steady_env None rotated_etag (GetResponse 200 example_body))
       (tick earlier_world + 2) (url private_pilot) = GetResponse 200 example_body
   \<and> \<not> raise_for_status 200
   \<and> content_hash private_pilot
       = Some (sha256_hexdigest (steady_env None rotated_etag (GetResponse 200 example_body))
                 example_body)
   \<and> fst (fst (check_document_changes (steady_env None rotated_etag (GetResponse 200 example_body))
                 earlier_world private_pilot)) = True"
proof -
  let ?E = "steady_env None rotated_etag (GetResponse 200 example_body)"
  have h1: "head_resp ?E (tick earlier_world) (url private_pilot)
              = HeadResponse 200 (Some ''T1'') (Some ''E2'') (Some ''100'')"
    by (simp add: steady_env_def rotated_etag_def)
  have h3: "etag private_pilot \<noteq> Some ''E2''"
    by (simp add: private_pilot_def)
  have h4: "get_resp ?E (tick earlier_world + 2) (url private_pilot) = GetResponse 200 example_body"
    by (simp add: steady_env_def)
  have h5: "\<not> raise_for_status 200"
    by (simp add: raise_for_status_def)
  have h6: "content_hash private_pilot = Some (sha256_hexdigest ?E example_body)"
    by (simp add: steady_env_def private_pilot_def)
  from etag_rotation_same_hash_reports_changed [OF h1 live_size_100 h3 h4 h5 h6]
    h1 h3 h4 h5 h6 live_size_100
  show ?thesis by simp
qed

text \<open>
  C2. Scenario A on the code: all three header signals equal the stored values. The check
  answers \<open>changed = False\<close> without a download, and the record it returns is the fresh one:
  name, URL and the three signals as stored, the time of the check, and neither content
  hash nor local path.
\<close>

theorem unchanged_headers_drop_hash_and_path:
  assumes "head_resp E (tick w) (url document) = HeadResponse 200 lm et content_length"
    and "live_file_size content_length = Inr live_size"
    and "last_modified document = lm" and "etag document = et"
    and "file_size document = live_size"
  shows "check_document_changes E w document
       = ((False, \<lparr>name = name document, url = url document, last_modified = lm, etag = et,
                   content_hash = None, file_size = live_size, local_path = None,
                   last_checked = Some (now_isoformat E (Suc (tick w)))\<rparr>),
          emit EvNow (emit (EvHead (url document)) w))"
  using assms
  by (simp add: check_document_changes_def Let_def now_def headers_changed_def tick_emit)

theorem unchanged_headers_drop_hash_and_path_witness:
  "head_resp (steady_env None same_headers GetRaises) (tick earlier_world) (url private_pilot)
     = HeadResponse 200 (Some ''T1'') (Some ''E1'') (Some ''100'')
   \<and> live_file_size (Some ''100'') = Inr (Some 100)
   \<and> last_modified private_pilot = Some ''T1'' \<and> etag private_pilot = Some ''E1''
   \<and> file_size private_pilot = Some 100
   \<and> content_hash private_pilot \<noteq> None \<and> local_path private_pilot \<noteq> None
   \<and> content_hash (snd (fst (check_document_changes (steady_env None same_headers GetRaises)
                               earlier_world private_pilot))) = None
   \<and> local_path (snd (fst (check_document_changes (steady_env None same_headers GetRaises)
                               earlier_world private_pilot))) = None"
proof -
  let ?E = "steady_env None same_headers GetRaises"
  have h1: "head_resp ?E (tick earlier_world) (url private_pilot)
              = HeadResponse 200 (Some ''T1'') (Some ''E1'') (Some ''100'')"
    by (simp add: steady_env_def same_headers_def)
  have h3: "last_modified private_pilot = Some ''T1''" and h4: "etag private_pilot = Some ''E1''"
    and h5: "file_size private_pilot = Some 100"
    and h6: "content_hash private_pilot \<noteq> None" and h7: "local_path private_pilot \<noteq> None"
    by (simp_all add: private_pilot_def)
  from unchanged_headers_drop_hash_and_path [OF h1 live_size_100 h3 h4 h5]
    h1 h3 h4 h5 h6 h7 live_size_100
  show ?thesis by simp
qed

subsection \<open>The monitor run\<close>

text \<open>Requests and clock readings leave the metadata files alone.\<close>

lemma emit_files:
  "changes_json (emit e w) = changes_json w"
  "known_documents_json (emit e w) = known_documents_json w"
  by (simp_all add: emit_def)

lemma now_files:
  "changes_json (snd (now E w)) = changes_json w"
  "known_documents_json (snd (now E w)) = known_documents_json w"
  by (simp_all add: now_def emit_files)

lemma download_and_verify_files:
  "changes_json (snd (download_and_verify E w d)) = changes_json w"
  "known_documents_json (snd (download_and_verify E w d)) = known_documents_json w"
  by (simp_all add: download_and_verify_def Let_def emit_def split: get_result.splits)

lemma check_document_changes_files:
  "changes_json (snd (check_document_changes E w d)) = changes_json w"
  "known_documents_json (snd (check_document_changes E w d)) = known_documents_json w"
  by (simp_all add: check_document_changes_def Let_def now_def emit_files download_and_verify_files
      split: head_result.splits sum.splits)

lemma discovered_files:
  "changes_json (snd (discovered E links w)) = changes_json w"
  by (induction E links w rule: discovered.induct)
    (simp_all add: now_def emit_def Let_def case_prod_beta)

lemma discovered_urls:
  "map url (fst (discovered E links w)) = map snd links"
  by (induction E links w rule: discovered.induct)
    (simp_all add: now_def Let_def case_prod_beta)

lemma discover_files:
  "changes_json (snd (discover_acs_documents E w)) = changes_json w"
  by (simp add: discover_acs_documents_def Let_def discovered_files emit_files split: option.splits)

lemma known_urls_url: "known_urls ds u = Some k \<Longrightarrow> url k = u"
  unfolding known_urls_def by (auto dest!: map_of_SomeD)

lemma known_urls_None: "known_urls ds u = None \<longleftrightarrow> u \<notin> url ` set ds"
  unfolding known_urls_def by (simp add: map_of_eq_None_iff image_image)

lemma monitor_step_files:
  "changes_json (snd (monitor_step E known doc acc)) = changes_json (snd acc)"
proof (cases acc)
  case (Pair cd w)
  obtain changes all_docs where cd: "cd = (changes, all_docs)" by (cases cd)
  show ?thesis
  proof (cases "known (url doc)")
    case None
    then show ?thesis
      by (simp add: Pair cd monitor_step_def Let_def case_prod_beta now_files emit_files
          download_and_verify_files)
  next
    case (Some k)
    then show ?thesis
      by (simp add: Pair cd monitor_step_def Let_def case_prod_beta now_files emit_files
          check_document_changes_files)
  qed
qed

lemma monitor_step_urls:
  assumes "\<And>k. known (url doc) = Some k \<Longrightarrow> url k = url doc"
  shows "map url (snd (fst (monitor_step E known doc acc)))
       = map url (snd (fst acc)) @ [url doc]"
proof (cases acc)
  case (Pair cd w)
  obtain changes all_docs where cd: "cd = (changes, all_docs)" by (cases cd)
  show ?thesis
  proof (cases "known (url doc)")
    case None
    then show ?thesis
      by (simp add: Pair cd monitor_step_def Let_def case_prod_beta download_and_verify_url)
  next
    case (Some k)
    then show ?thesis
      using assms [OF Some]
      by (simp add: Pair cd monitor_step_def Let_def case_prod_beta check_document_changes_url)
  qed
qed

lemma monitor_loop_files:
  "changes_json (snd (fold (monitor_step E known) docs acc)) = changes_json (snd acc)"
  by (induction docs arbitrary: acc) (simp_all add: monitor_step_files)

lemma monitor_loop_urls:
  assumes "\<And>u k. known u = Some k \<Longrightarrow> url k = u"
  shows "map url (snd (fst (fold (monitor_step E known) docs acc)))
       = map url (snd (fst acc)) @ map url docs"
proof (induction docs arbitrary: acc)
  case Nil
  then show ?case by simp
next
  case (Cons d docs)
  have "map url (snd (fst (monitor_step E known d acc))) = map url (snd (fst acc)) @ [url d]"
    by (rule monitor_step_urls) (rule assms)
  with Cons.IH [of "monitor_step E known d acc"] show ?case by simp
qed

lemma monitor_scan_urls:
  "map url (snd (fst (monitor_scan E w))) = map url (fst (discover_acs_documents E w))"
  by (simp add: monitor_scan_def Let_def case_prod_beta monitor_loop_urls known_urls_url)

lemma monitor_scan_files:
  "changes_json (snd (monitor_scan E w)) = changes_json w"
  by (simp add: monitor_scan_def Let_def case_prod_beta monitor_loop_files discover_files)

lemma monitor_saved:
  "known_documents_json (monitor E w) = Content (snd (fst (monitor_scan E w)))"
  by (simp add: monitor_def Let_def case_prod_beta save_known_documents_def now_def emit_def)

lemma monitor_change_log:
  "changes_json (monitor E w)
     = (if fst (fst (monitor_scan E w)) = [] then changes_json (snd (monitor_scan E w))
        else Content (fst (fst (monitor_scan E w))))"
  by (simp add: monitor_def Let_def case_prod_beta save_known_documents_def now_def emit_def)

text \<open>
  C4, as the code has it. A run that detects at least one change replaces the change log
  by the changes of this run; a run that detects none does not touch the file, which keeps
  what an earlier run wrote.
\<close>

theorem change_log_written_only_on_change:
  "changes_json (monitor E w)
     = (if fst (fst (monitor_scan E w)) = [] then changes_json w
        else Content (fst (fst (monitor_scan E w))))"
  by (simp add: monitor_change_log monitor_scan_files)

text \<open>
  C3, as the code has it. The registry saved at the end of a run holds one record for each
  document discovered in this run, in discovery order. So a URL of the loaded registry is
  in the saved registry exactly when the run discovered it again.
\<close>

theorem registry_keeps_rediscovered_urls:
  assumes "u \<in> set (map url (load_known_documents w))"
  shows "(u \<in> set (map url (load_known_documents (monitor E w)))
          \<longleftrightarrow> u \<in> set (map url (fst (discover_acs_documents E w))))
       \<and> map url (load_known_documents (monitor E w))
         = map url (fst (discover_acs_documents E w))"
  by (simp add: load_known_documents_def monitor_saved monitor_scan_urls [symmetric])

theorem change_log_written_only_on_change_witness:
  "fst (fst (monitor_scan (steady_env (Some [commercial_link]) HeadRaises GetRaises)
               earlier_world)) \<noteq> []
   \<and> changes_json (monitor (steady_env (Some [commercial_link]) HeadRaises GetRaises)
                      earlier_world)
     = Content (fst (fst (monitor_scan (steady_env (Some [commercial_link]) HeadRaises GetRaises)
                            earlier_world)))"
proof -
  let ?E = "steady_env (Some [commercial_link]) HeadRaises GetRaises"
  have unknown: "known_urls (load_known_documents earlier_world) (snd commercial_link) = None"
    by (simp add: known_urls_def load_known_documents_def earlier_world_def commercial_link_def
        private_pilot_def)
  have scan: "fst (fst (monitor_scan ?E earlier_world)) \<noteq> []"
    using unknown
    by (simp add: monitor_scan_def discover_acs_documents_def steady_env_def now_def Let_def
        monitor_step_def case_prod_beta commercial_link_def)
  with change_log_written_only_on_change [of ?E earlier_world] show ?thesis
    by simp
qed

text \<open>
  C4 as stated fails: the tracked document is unchanged, the run detects no change, and
  the change log still holds the entry written by the earlier run.
\<close>

theorem stale_change_log_counterexample:
  "fst (fst (monitor_scan (steady_env (Some [(name private_pilot, url private_pilot)])
                             same_headers GetRaises) earlier_world)) = []
   \<and> changes_json (monitor (steady_env (Some [(name private_pilot, url private_pilot)])
                             same_headers GetRaises) earlier_world)
     = Content [earlier_change]"
proof -
  let ?E = "steady_env (Some [(name private_pilot, url private_pilot)]) same_headers GetRaises"
  have known: "known_urls (load_known_documents earlier_world) (url private_pilot) = Some private_pilot"
    by (simp add: known_urls_def load_known_documents_def earlier_world_def)
  have scan: "fst (fst (monitor_scan ?E earlier_world)) = []"
    using known 
    by (simp add: monitor_scan_def discover_acs_documents_def steady_env_def now_def Let_def
        monitor_step_def check_document_changes_def same_headers_def live_size_100
        headers_changed_def private_pilot_def case_prod_beta)
  have "changes_json (monitor ?E earlier_world) = changes_json earlier_world"
    using scan by (simp add: monitor_change_log monitor_scan_files)
  then show ?thesis using scan by (simp add: earlier_world_def)
qed

theorem registry_keeps_rediscovered_urls_witness:
  "url private_pilot \<in> set (map url (load_known_documents earlier_world))
   \<and> url private_pilot
       \<in> set (map url (fst (discover_acs_documents
                              (steady_env (Some [(name private_pilot, url private_pilot)])
                                 same_headers GetRaises) earlier_world)))
   \<and> url private_pilot
       \<in> set (map url (load_known_documents
                         (monitor (steady_env (Some [(name private_pilot, url private_pilot)])
                                     same_headers GetRaises) earlier_world)))"
proof -
  let ?E = "steady_env (Some [(name private_pilot, url private_pilot)]) same_headers GetRaises"
  have h: "url private_pilot \<in> set (map url (load_known_documents earlier_world))"
    by (simp add: load_known_documents_def earlier_world_def)
  have d: "url private_pilot \<in> set (map url (fst (discover_acs_documents ?E earlier_world)))"
    by (simp add: discover_acs_documents_def steady_env_def Let_def now_def case_prod_beta)
  from registry_keeps_rediscovered_urls [OF h, of ?E] h d show ?thesis
    by blast
qed

text \<open>
  C3 as stated fails: when discovery raises (or the page no longer lists a document), the
  run saves a registry without the URL that the loaded registry held.
\<close>

theorem registry_drops_undiscovered_counterexample:
  "url private_pilot \<in> set (map url (load_known_documents earlier_world))
   \<and> url private_pilot
       \<notin> set (map url (load_known_documents
                          (monitor (steady_env None HeadRaises GetRaises) earlier_world)))"
  by (simp add: monitor_def monitor_scan_def discover_acs_documents_def steady_env_def
      earlier_world_def load_known_documents_def save_known_documents_def now_def emit_def
      tick_def Let_def)

subsection \<open>A new document whose fetch fails\<close>

lemma download_fails:
  "fetch_fails (get_resp E (tick w) (url d))
   \<Longrightarrow> download_and_verify E w d = ((False, d), emit (EvGet (url d)) w)"
  by (auto simp add: download_and_verify_def fetch_fails_def Let_def split: get_result.splits)

lemma monitor_step_new_failed:
  assumes "known (url doc) = None" and "\<forall>t. fetch_fails (get_resp E t (url doc))"
  shows "fst (monitor_step E known doc acc)
       = (fst (fst acc) @ [\<lparr>change_type = ''new'', change_document = doc,
                             change_timestamp = now_isoformat E (tick (snd acc) + 2)\<rparr>],
          snd (fst acc) @ [doc])"
  using assms
  by (simp add: monitor_step_def Let_def case_prod_beta download_fails now_def tick_emit)

lemma monitor_step_grows:
  "set (fst (fst acc)) \<subseteq> set (fst (fst (monitor_step E known doc acc)))"
  "set (snd (fst acc)) \<subseteq> set (snd (fst (monitor_step E known doc acc)))"
  by (auto simp add: monitor_step_def Let_def case_prod_beta split: option.splits)

lemma monitor_loop_grows:
  "set (fst (fst acc)) \<subseteq> set (fst (fst (fold (monitor_step E known) docs acc)))
   \<and> set (snd (fst acc)) \<subseteq> set (snd (fst (fold (monitor_step E known) docs acc)))"
proof (induction docs arbitrary: acc)
  case Nil
  then show ?case by simp
next
  case (Cons d docs)
  from Cons.IH [of "monitor_step E known d acc"] monitor_step_grows [of acc E known d]
  show ?case by auto
qed

lemma monitor_loop_new_failed:
  assumes "doc \<in> set docs" and "known (url doc) = None"
    and "\<forall>t. fetch_fails (get_resp E t (url doc))"
  shows "(\<exists>c \<in> set (fst (fst (fold (monitor_step E known) docs acc))).
            change_type c = ''new'' \<and> change_document c = doc)
       \<and> doc \<in> set (snd (fst (fold (monitor_step E known) docs acc)))"
  using assms(1)
proof (induction docs arbitrary: acc)
  case Nil
  then show ?case by simp
next
  case (Cons d docs)
  show ?case
  proof (cases "doc = d")
    case True
    let ?acc = "monitor_step E known d acc"
    let ?c = "\<lparr>change_type = ''new'', change_document = doc,
               change_timestamp = now_isoformat E (tick (snd acc) + 2)\<rparr>"
    from monitor_step_new_failed [where known = known and doc = doc and E = E and acc = acc,
        OF assms(2,3)] True
    have "?c \<in> set (fst (fst ?acc))" and "doc \<in> set (snd (fst ?acc))"
      by simp_all
    with monitor_loop_grows [of ?acc E known docs]
    have "?c \<in> set (fst (fst (fold (monitor_step E known) docs ?acc)))"
      and "doc \<in> set (snd (fst (fold (monitor_step E known) docs ?acc)))"
      by auto
    then show ?thesis by force
  next
    case False
    with Cons.prems have "doc \<in> set docs" by simp
    from Cons.IH [OF this, of "monitor_step E known d acc"] show ?thesis by simp
  qed
qed

lemma discovered_member:
  "(n, u) \<in> set links
   \<Longrightarrow> \<exists>d \<in> set (fst (discovered E links w)).
         name d = n \<and> url d = u \<and> content_hash d = None \<and> local_path d = None"
  by (induction E links w rule: discovered.induct)
    (auto simp add: now_def Let_def case_prod_beta)

text \<open>
  C10. A document discovered in this run whose URL the registry does not know, and whose
  body fetch fails whenever it is tried, still gets a change of type \<open>new\<close> in the change
  log written by the run and a record in the saved registry, both without content hash
  and local path. \<open>monitor\<close> is a total function: the failed fetch does not end the run.
\<close>

theorem failed_fetch_of_new_document_is_recorded:
  assumes "discover_resp E (tick w) = Some links" and "(n, u) \<in> set links"
    and "u \<notin> url ` set (load_known_documents w)"
    and "\<forall>t. fetch_fails (get_resp E t u)"
  shows "(\<exists>changes. changes_json (monitor E w) = Content changes
            \<and> (\<exists>c \<in> set changes. change_type c = ''new''
                  \<and> name (change_document c) = n \<and> url (change_document c) = u
                  \<and> content_hash (change_document c) = None
                  \<and> local_path (change_document c) = None))
       \<and> (\<exists>d \<in> set (load_known_documents (monitor E w)).
            name d = n \<and> url d = u \<and> content_hash d = None \<and> local_path d = None)"
proof -
  let ?known = "known_urls (load_known_documents w)"
  let ?w1 = "emit EvDiscover w"
  let ?docs = "fst (discovered E links ?w1)"
  let ?start = "(([], []), snd (discovered E links ?w1))"
  let ?run = "fold (monitor_step E ?known) ?docs ?start"
  have scan: "monitor_scan E w = ?run"
    using assms(1)
    by (simp add: monitor_scan_def discover_acs_documents_def Let_def case_prod_beta)
  from discovered_member [OF assms(2), of E ?w1]
  obtain d where d: "d \<in> set ?docs" "name d = n" "url d = u"
    "content_hash d = None" "local_path d = None"
    by blast
  have unknown: "?known (url d) = None"
    using assms(3) d(3) by (simp add: known_urls_None)
  have fails: "\<forall>t. fetch_fails (get_resp E t (url d))"
    using assms(4) d(3) by simp
  from monitor_loop_new_failed [where known = ?known and doc = d and E = E and acc = ?start,
      OF d(1) unknown fails]
  obtain c where c: "c \<in> set (fst (fst ?run))" "change_type c = ''new''" "change_document c = d"
    and reg: "d \<in> set (snd (fst ?run))"
    by blast
  from c(1) have nonempty: "fst (fst (monitor_scan E w)) \<noteq> []"
    by (auto simp add: scan)
  have log: "changes_json (monitor E w) = Content (fst (fst ?run))"
    using nonempty by (simp add: monitor_change_log scan)
  have saved: "load_known_documents (monitor E w) = snd (fst ?run)"
    by (simp add: load_known_documents_def monitor_saved scan)
  show ?thesis
    using log saved c reg d by auto
qed

theorem failed_fetch_of_new_document_is_recorded_witness:
  "discover_resp (steady_env (Some [commercial_link]) HeadRaises GetRaises) (tick earlier_world)
     = Some [commercial_link]
   \<and> commercial_link \<in> set [commercial_link]
   \<and> snd commercial_link \<notin> url ` set (load_known_documents earlier_world)
   \<and> (\<forall>t. fetch_fails (get_resp (steady_env (Some [commercial_link]) HeadRaises GetRaises)
                           t (snd commercial_link)))
   \<and> (\<exists>d \<in> set (load_known_documents
                     (monitor (steady_env (Some [commercial_link]) HeadRaises GetRaises)
                        earlier_world)).
         name d = fst commercial_link \<and> url d = snd commercial_link
         \<and> content_hash d = None \<and> local_path d = None)"
proof -
  let ?E = "steady_env (Some [commercial_link]) HeadRaises GetRaises"
  have h1: "discover_resp ?E (tick earlier_world) = Some [commercial_link]"
    by (simp add: steady_env_def)
  have h2: "(fst commercial_link, snd commercial_link) \<in> set [commercial_link]"
    by simp
  have h3: "snd commercial_link \<notin> url ` set (load_known_documents earlier_world)"
    by (simp add: commercial_link_def load_known_documents_def earlier_world_def
        private_pilot_def)
  have h4: "\<forall>t. fetch_fails (get_resp ?E t (snd commercial_link))"
    by (simp add: steady_env_def fetch_fails_def)
  from failed_fetch_of_new_document_is_recorded [OF h1 h2 h3 h4] h1 h3 h4
  show ?thesis by simp
qed

section \<open>Properties of the extraction engine\<close>

subsection \<open>Sections are sorted and complete\<close>

text \<open>
  C7. For every text, the sections come out sorted by ascending position, and they are
  the matches of the seven patterns, each match once: the list is a permutation of the
  list of all matches, so its length is the sum of the match counts of the patterns.
\<close>

theorem parse_sections_sorted_complete:
  "sorted (map sec_position (parse_acs_sections text))
   \<and> length (parse_acs_sections text)
       = (\<Sum>pattern\<leftarrow>section_patterns. length (finditer True pattern text))
   \<and> mset (parse_acs_sections text)
       = mset (concat (map (\<lambda>pattern. map (section_of text) (finditer True pattern text))
                           section_patterns))
   \<and> length section_patterns = 7"
proof -
  let ?all = "concat (map (\<lambda>pattern. map (section_of text) (finditer True pattern text))
                          section_patterns)"
  have sorted: "sorted (map sec_position (sort_key sec_position ?all))"
    by (rule sorted_sort_key)
  have "length ?all = (\<Sum>pattern\<leftarrow>section_patterns. length (finditer True pattern text))"
    by (simp add: length_concat comp_def)
  then have len: "length (sort_key sec_position ?all)
      = (\<Sum>pattern\<leftarrow>section_patterns. length (finditer True pattern text))"
    by simp
  have perm: "mset (sort_key sec_position ?all) = mset ?all"
    by simp
  have seven: "length section_patterns = 7"
    by (simp add: section_patterns_def)
  from sorted len perm seven show ?thesis
    unfolding parse_acs_sections_def by blast
qed

subsection \<open>Scenario D\<close>

text \<open>
  The case mapping on the bits of a character: the equations the evaluation below runs on.
\<close>

lemma ascii_lower_code [code]:
  "ascii_lower (Char b0 b1 b2 b3 b4 b5 b6 b7)
     = (if \<not> b7 \<and> b6 \<and> \<not> b5 \<and> (b0 \<or> b1 \<or> b2 \<or> b3 \<or> b4) \<and> \<not> (b4 \<and> b3 \<and> (b2 \<or> (b1 \<and> b0)))
        then Char b0 b1 b2 b3 b4 True b6 b7 else Char b0 b1 b2 b3 b4 b5 b6 b7)"
  unfolding ascii_lower_def is_ascii_upper_def py_ord_def
  by (cases b0; cases b1; cases b2; cases b3; cases b4; cases b5; cases b6; cases b7;
      simp add: char_of_def bit_0)

lemma ascii_upper_code [code]:
  "ascii_upper (Char b0 b1 b2 b3 b4 b5 b6 b7)
     = (if \<not> b7 \<and> b6 \<and> b5 \<and> (b0 \<or> b1 \<or> b2 \<or> b3 \<or> b4) \<and> \<not> (b4 \<and> b3 \<and> (b2 \<or> (b1 \<and> b0)))
        then Char b0 b1 b2 b3 b4 False b6 b7 else Char b0 b1 b2 b3 b4 b5 b6 b7)"
  unfolding ascii_upper_def is_ascii_lower_def py_ord_def
  by (cases b0; cases b1; cases b2; cases b3; cases b4; cases b5; cases b6; cases b7;
      simp add: char_of_def bit_0)

lemma scenario_d_sections:
  "parse_acs_sections scenario_d
     = [\<lparr>sec_type = ''AREA OF OPERATION II'', sec_content = ''Airspace'',
         sec_position = 0, sec_length = 30\<rparr>,
        \<lparr>sec_type = ''TASK A'', sec_content = ''Preflight Prep'',
         sec_position = 31, sec_length = 22\<rparr>]"
  by code_simp

lemma scenario_d_standards:
  "extract_acs_standards scenario_d
     = \<lparr>areas_of_operation = [\<lparr>area_number = ''II'', area_title = ''Airspace''\<rparr>],
        tasks = [\<lparr>task_code = ''A'', task_title = ''Preflight Prep''\<rparr>],
        references = [], objectives = [], knowledge_elements = [], risk_management = [],
        skill_elements = []\<rparr>"
  by code_simp

theorem parse_sections_sorted_complete_witness:
  "sorted (map sec_position (parse_acs_sections scenario_d))
   \<and> length (parse_acs_sections scenario_d) = 2
   \<and> (\<Sum>pattern\<leftarrow>section_patterns. length (finditer True pattern scenario_d)) = 2"
  using parse_sections_sorted_complete [of scenario_d] scenario_d_sections by simp

text \<open>
  C8. On the text of scenario D the sections are the area-of-operation header at offset 0
  with content \<open>Airspace\<close> and the task header at offset 31 with content
  \<open>Preflight Prep\<close>, and the standards hold one area of operation (\<open>II\<close>, \<open>Airspace\<close>)
  and one task (\<open>A\<close>, \<open>Preflight Prep\<close>).
\<close>

theorem scenario_d_sections_and_standards:
  "parse_acs_sections scenario_d
     = [\<lparr>sec_type = ''AREA OF OPERATION II'', sec_content = ''Airspace'',
         sec_position = 0, sec_length = 30\<rparr>,
        \<lparr>sec_type = ''TASK A'', sec_content = ''Preflight Prep'',
         sec_position = 31, sec_length = 22\<rparr>]
   \<and> areas_of_operation (extract_acs_standards scenario_d)
     = [\<lparr>area_number = ''II'', area_title = ''Airspace''\<rparr>]
   \<and> tasks (extract_acs_standards scenario_d)
     = [\<lparr>task_code = ''A'', task_title = ''Preflight Prep''\<rparr>]"
  using scenario_d_sections scenario_d_standards by simp

subsection \<open>Empty extraction\<close>

lemma process_document_started:
  "started (snd (process_document P w pdf_path)) = started w @ [pdf_path]"
  by (simp add: process_document_def Let_def case_prod_beta read_clock_def)

lemma process_document_source_path:
  "source_path (fst (process_document P w pdf_path)) = pdf_path"
  by (simp add: process_document_def Let_def case_prod_beta)

lemma process_step_started:
  "started (snd (process_step P pdf_file acc)) = started (snd acc) @ [pdf_file]"
  by (simp add: process_step_def Let_def case_prod_beta save_processed_document_def
      process_document_started)

lemma process_loop_started:
  "started (snd (fold (process_step P) pdf_files acc)) = started (snd acc) @ pdf_files"
  by (induction pdf_files arbitrary: acc) (simp_all add: process_step_started)

lemma process_step_grows:
  "set (fst acc) \<subseteq> set (fst (process_step P pdf_file acc))"
  by (auto simp add: process_step_def Let_def case_prod_beta)

lemma process_loop_grows:
  "set (fst acc) \<subseteq> set (fst (fold (process_step P) pdf_files acc))"
proof (induction pdf_files arbitrary: acc)
  case Nil
  then show ?case by simp
next
  case (Cons f pdf_files)
  from Cons.IH [of "process_step P f acc"] process_step_grows [of acc P f]
  show ?case by auto
qed

lemma process_step_keeps:
  assumes "\<forall>d. source_path d = pdf_file \<longrightarrow> \<not> save_raises P d"
  shows "fst (process_document P (snd acc) pdf_file) \<in> set (fst (process_step P pdf_file acc))"
  using assms
  by (simp add: process_step_def Let_def case_prod_beta process_document_source_path)

lemma process_loop_keeps:
  assumes "q \<in> set pdf_files" and "\<forall>d. source_path d = q \<longrightarrow> \<not> save_raises P d"
  shows "\<exists>w'. fst (process_document P w' q) \<in> set (fst (fold (process_step P) pdf_files acc))"
  using assms(1)
proof (induction pdf_files arbitrary: acc)
  case Nil
  then show ?case by simp
next
  case (Cons f pdf_files)
  show ?case
  proof (cases "q = f")
    case True
    from process_step_keeps [OF assms(2), of acc] True
    have "fst (process_document P (snd acc) q) \<in> set (fst (process_step P f acc))"
      by simp
    with process_loop_grows [of "process_step P f acc" P pdf_files]
    have "fst (process_document P (snd acc) q)
            \<in> set (fst (fold (process_step P) (f # pdf_files) acc))"
      by auto
    then show ?thesis by blast
  next
    case False
    with Cons.prems have "q \<in> set pdf_files" by simp
    from Cons.IH [OF this, of "process_step P f acc"] show ?thesis by simp
  qed
qed

text \<open>
  C9. When the extraction of a document gives the empty text, \<open>process_document\<close> returns
  a document with empty text and without sections, structured content and metadata. In a
  batch that holds such a document, the processing of every file of the listing is still
  started, in order, and every file whose saving does not raise ends up among the
  processed documents.
\<close>

theorem empty_extraction_does_not_abort_batch:
  assumes "fst (extract_text P pdf_path) = []" and "pdf_path \<in> set pdf_files"
  shows "text_content (fst (process_document P w' pdf_path)) = []
       \<and> sections (fst (process_document P w' pdf_path)) = None
       \<and> structured_content (fst (process_document P w' pdf_path)) = None
       \<and> metadata (fst (process_document P w' pdf_path)) = None
       \<and> started (snd (process_all_documents P w (Some pdf_files))) = started w @ pdf_files
       \<and> (\<forall>q \<in> set pdf_files.
            (\<forall>d. source_path d = q \<longrightarrow> \<not> save_raises P d)
            \<longrightarrow> (\<exists>d \<in> set (fst (process_all_documents P w (Some pdf_files))).
                   source_path d = q))"
proof -
  have empty: "text_content (fst (process_document P w' pdf_path)) = []
       \<and> sections (fst (process_document P w' pdf_path)) = None
       \<and> structured_content (fst (process_document P w' pdf_path)) = None
       \<and> metadata (fst (process_document P w' pdf_path)) = None"
    using assms(1) by (simp add: process_document_def Let_def case_prod_beta)
  from assms(2) have nonempty: "pdf_files \<noteq> []"
    by auto
  have batch: "started (snd (process_all_documents P w (Some pdf_files))) = started w @ pdf_files"
    using nonempty
    by (simp add: process_all_documents_def Let_def case_prod_beta read_clock_def
        process_loop_started)
  have docs: "fst (process_all_documents P w (Some pdf_files))
                = fst (fold (process_step P) pdf_files ([], w))"
    using nonempty by (simp add: process_all_documents_def Let_def case_prod_beta)
  have all: "\<exists>d \<in> set (fst (process_all_documents P w (Some pdf_files))). source_path d = q"
    if "q \<in> set pdf_files" and "\<forall>d. source_path d = q \<longrightarrow> \<not> save_raises P d" for q
  proof -
    from process_loop_keeps [OF that, of "([], w)"] obtain w''
      where "fst (process_document P w'' q) \<in> set (fst (fold (process_step P) pdf_files ([], w)))"
      by blast
    then show ?thesis
      unfolding docs using process_document_source_path [of P w'' q] by blast
  qed
  from empty batch all show ?thesis
    by blast
qed

theorem empty_extraction_does_not_abort_batch_witness:
  "fst (extract_text example_processor ''data/acs-documents/scan.pdf'') = []
   \<and> text_content (fst (process_document example_processor fresh_pworld
                          ''data/acs-documents/scan.pdf'')) = []
   \<and> sections (fst (process_document example_processor fresh_pworld
                      ''data/acs-documents/scan.pdf'')) = None
   \<and> structured_content (fst (process_document example_processor fresh_pworld
                                ''data/acs-documents/scan.pdf'')) = None
   \<and> started (snd (process_all_documents example_processor fresh_pworld
                      (Some [''data/acs-documents/scan.pdf'', ''data/acs-documents/private.pdf''])))
     = [''data/acs-documents/scan.pdf'', ''data/acs-documents/private.pdf'']
   \<and> (\<exists>d \<in> set (fst (process_all_documents example_processor fresh_pworld
                 (Some [''data/acs-documents/scan.pdf'', ''data/acs-documents/private.pdf'']))).
         source_path d = ''data/acs-documents/private.pdf'')"
proof -
  let ?files = "[''data/acs-documents/scan.pdf'', ''data/acs-documents/private.pdf'']"
  have h1: "fst (extract_text example_processor ''data/acs-documents/scan.pdf'') = []"
    by (simp add: extract_text_def example_processor_def)
  have h2: "''data/acs-documents/scan.pdf'' \<in> set ?files"
    by simp
  have h3: "''data/acs-documents/private.pdf'' \<in> set ?files"
    by simp
  have h4: "\<forall>d. source_path d = ''data/acs-documents/private.pdf''
              \<longrightarrow> \<not> save_raises example_processor d"
    by (simp add: example_processor_def)
  have s: "started fresh_pworld = []"
    by (simp add: fresh_pworld_def)
  from empty_extraction_does_not_abort_batch [OF h1 h2, of fresh_pworld fresh_pworld]
    h1 h3 h4 s
  show ?thesis by auto
qed

end
